theory Spec2Isabelle
  imports Main
begin

section \<open>Shared helpers: big numbers and JavaScript objects\<close>

text \<open>
  The scripts compute on \<^verbatim>\<open>ethers\<close> \<^verbatim>\<open>BigNumber\<close> values: signed integers of
  unbounded size, modelled as \<^typ>\<open>int\<close>. \<^verbatim>\<open>add\<close>, \<^verbatim>\<open>sub\<close>, \<^verbatim>\<open>mul\<close>,
  \<^verbatim>\<open>abs\<close>, \<^verbatim>\<open>lt\<close> and \<^verbatim>\<open>gt\<close> are the operations of \<^typ>\<open>int\<close>.
  \<^verbatim>\<open>div\<close> truncates towards zero and throws on a zero divisor. Addresses
  are strings, compared as JavaScript compares strings: character by character.
\<close>

type_synonym address = string

text \<open>
  Modelled from the spec: \<^verbatim>\<open>expandDecimals\<close> of \<^verbatim>\<open>utils/math\<close>, which is not among
  the source files. The spec reads \<^verbatim>\<open>expandDecimals(1, 18)\<close> as "1 unit at 18-decimal
  fixed-point" and \<^verbatim>\<open>expandDecimals(1, 17)\<close> as "0.1 token": \<open>n\<close> times ten to the
  power \<open>decimals\<close>.
\<close>

definition expandDecimals :: "int \<Rightarrow> nat \<Rightarrow> int" where
  "expandDecimals n decimals = n * 10 ^ decimals"

section \<open>AllocationComputer: \<^verbatim>\<open>stipLpIncentives.ts\<close>\<close>

text \<open>
  The script is \<^verbatim>\<open>src/scripts/incentives/stipLpIncentives.ts\<close>; the line numbers of
  this section are those of that file. Every error it throws is a constructor.
\<close>

datatype alloc_error =
    NoIncentives
  | NoBalancesData address
  | ReconciliationError address int int
  | DivisionByZero
  | OverAllocationError int int

text \<open>\<^verbatim>\<open>BigNumber.div\<close>: throws on zero, otherwise the quotient truncated towards zero.\<close>

definition bn_div :: "int \<Rightarrow> int \<Rightarrow> alloc_error + int" where
  "bn_div a b =
     (if b = 0 then Inl DivisionByZero else Inr (sgn a * sgn b * (\<bar>a\<bar> div \<bar>b\<bar>)))"

text \<open>
  One value of \<^verbatim>\<open>balancesData\<close>: the supply of a market's token and the balance of
  each account, in the order \<^verbatim>\<open>Object.entries\<close> lists them.
\<close>

record market_balances =
  marketTokensSupply :: int
  userBalances :: "(address \<times> int) list"

text \<open>\<^verbatim>\<open>allocationData.lp\<close>; \<open>rewardsPerMarket\<close> in the order of \<^verbatim>\<open>Object.keys\<close>.\<close>

record lp_allocation =
  isActive :: bool
  rewardsPerMarket :: "(address \<times> int) list"
  totalRewards :: int

text \<open>
  \<^verbatim>\<open>usersDistributionResult\<close> is an object keyed by account; its entries keep the order
  in which the keys were first written. Lines 183 to 185 and 198: a missing key starts at
  zero, then the reward is added.
\<close>

fun addUserRewards :: "address \<Rightarrow> int \<Rightarrow> (address \<times> int) list \<Rightarrow> (address \<times> int) list" where
  "addUserRewards userAccount userRewards [] = [(userAccount, 0 + userRewards)]"
| "addUserRewards userAccount userRewards ((k, v) # rest) =
     (if k = userAccount then (k, v + userRewards) # rest
      else (k, v) # addUserRewards userAccount userRewards rest)"

text \<open>Line 187: \<^verbatim>\<open>userBalance.mul(marketRewards).div(marketTokensSupply)\<close>.\<close>

definition userRewardsOf :: "int \<Rightarrow> int \<Rightarrow> int \<Rightarrow> alloc_error + int" where
  "userRewardsOf userBalance marketRewards supply = bn_div (userBalance * marketRewards) supply"

text \<open>
  The inner loop, lines 182 to 199. The percentage logged at line 195 divides by the same
  supply as line 187, so it throws in no case that line 187 has not thrown in before.
\<close>

fun userRewardsLoop ::
  "int \<Rightarrow> int \<Rightarrow> (address \<times> int) list \<Rightarrow> (address \<times> int) list
     \<Rightarrow> alloc_error + (address \<times> int) list" where
  "userRewardsLoop marketRewards supply [] dist = Inr dist"
| "userRewardsLoop marketRewards supply ((userAccount, userBalance) # rest) dist =
     (case userRewardsOf userBalance marketRewards supply of
        Inl e \<Rightarrow> Inl e
      | Inr userRewards \<Rightarrow>
          userRewardsLoop marketRewards supply rest
            (addUserRewards userAccount userRewards dist))"

text \<open>The body of the loop over the markets, lines 156 to 199.\<close>

definition processMarket ::
  "(address \<rightharpoonup> market_balances) \<Rightarrow> address \<times> int \<Rightarrow> (address \<times> int) list
     \<Rightarrow> alloc_error + (address \<times> int) list" where
  "processMarket balancesData m dist =
     (case m of (marketAddress, marketRewards) \<Rightarrow>
        (case balancesData marketAddress of
           None \<Rightarrow> Inl (NoBalancesData marketAddress)
         | Some md \<Rightarrow>
             (let userBalancesSum = sum_list (map snd (userBalances md));
                  supply = marketTokensSupply md
              in if \<bar>userBalancesSum - supply\<bar> > expandDecimals 1 18
                 then Inl (ReconciliationError marketAddress supply userBalancesSum)
                 else userRewardsLoop marketRewards supply (userBalances md) dist)))"

fun marketsLoop ::
  "(address \<rightharpoonup> market_balances) \<Rightarrow> (address \<times> int) list \<Rightarrow> (address \<times> int) list
     \<Rightarrow> alloc_error + (address \<times> int) list" where
  "marketsLoop balancesData [] dist = Inr dist"
| "marketsLoop balancesData (m # ms) dist =
     (case processMarket balancesData m dist of
        Inl e \<Rightarrow> Inl e
      | Inr dist' \<Rightarrow> marketsLoop balancesData ms dist')"

definition MIN_REWARD_THRESHOLD :: int where
  "MIN_REWARD_THRESHOLD = expandDecimals 1 17"

text \<open>
  The loop of lines 208 to 226 over the sorted entries. The running total is increased
  before the threshold is looked at. For an account that reaches the threshold the logged
  percentage divides by \<^verbatim>\<open>totalRewards\<close>, which throws when that is zero.
  \<^verbatim>\<open>jsonResult\<close> receives the account last; the accounts of the entries are pairwise
  different, so each assignment adds a key.
\<close>

fun thresholdLoop ::
  "int \<Rightarrow> (address \<times> int) list \<Rightarrow> int \<Rightarrow> (address \<times> int) list
     \<Rightarrow> alloc_error + (int \<times> (address \<times> int) list)" where
  "thresholdLoop allocated [] userTotalRewards jsonResult = Inr (userTotalRewards, jsonResult)"
| "thresholdLoop allocated ((userAccount, userRewards) # rest) userTotalRewards jsonResult =
     (let userTotalRewards' = userTotalRewards + userRewards
      in if userRewards < MIN_REWARD_THRESHOLD
         then thresholdLoop allocated rest userTotalRewards' jsonResult
         else (case bn_div (userRewards * 10000) allocated of
                 Inl e \<Rightarrow> Inl e
               | Inr percent \<Rightarrow>
                   thresholdLoop allocated rest userTotalRewards'
                     (jsonResult @ [(userAccount, userRewards)])))"

text \<open>
  \<^verbatim>\<open>main\<close> of \<^verbatim>\<open>stipLpIncentives.ts\<close> from line 145 on. Its inputs are what the
  subgraph requests returned: \<open>balancesData\<close> and the allocation. \<open>overrideReceivers\<close> is a
  helper that is not among the source files; it rewrites \<^verbatim>\<open>jsonResult\<close> in place and
  is a parameter here. The result is the mapping handed to \<^verbatim>\<open>saveDistribution\<close>, the
  only write of the run. The comparison function of the sort answers 1 for equal rewards;
  the model sorts stably by reward, and nothing below depends on the order among equals.
\<close>

definition stipLpIncentives_main ::
  "((address \<times> int) list \<Rightarrow> (address \<times> int) list) \<Rightarrow> (address \<rightharpoonup> market_balances)
     \<Rightarrow> lp_allocation \<Rightarrow> alloc_error + (address \<times> int) list" where
  "stipLpIncentives_main overrideReceivers balancesData lpAllocationData =
     (if \<not> isActive lpAllocationData then Inl NoIncentives
      else case marketsLoop balancesData (rewardsPerMarket lpAllocationData) [] of
             Inl e \<Rightarrow> Inl e
           | Inr usersDistributionResult \<Rightarrow>
               (case thresholdLoop (totalRewards lpAllocationData)
                       (sort_key snd usersDistributionResult) 0 [] of
                  Inl e \<Rightarrow> Inl e
                | Inr (userTotalRewards, jsonResult) \<Rightarrow>
                    if userTotalRewards > totalRewards lpAllocationData
                    then Inl (OverAllocationError userTotalRewards (totalRewards lpAllocationData))
                    else Inr (overrideReceivers jsonResult)))"

section \<open>BatchSubmitter and IdempotencyLedger: \<^verbatim>\<open>batchSend.ts\<close>\<close>

text \<open>
  The script is the third of the files that \<^verbatim>\<open>src/config/roles.ts\<close> holds, from line
  138 on; the line numbers below are those of \<^verbatim>\<open>src/config/roles.ts\<close>. It reads a
  distribution file and the ledger file, talks to a token contract and to the
  batch-sending contract, and rewrites the ledger file. Every error the script throws is a
  constructor; the text of the message is left out where it carries no data.
\<close>

datatype send_error =
    FilenameRequired
  | FileNotReadable
  | InvalidFileFormat string
  | UnknownDistributionType int
  | AlreadySentError int
  | BatchSenderKeyRequired
  | UnsupportedNetwork string
  | DuplicateRecipientError address nat nat
  | SubmissionError

text \<open>
  The parsed distribution file, typed as line 307 declares it. \<open>amounts\<close> is the list
  \<^verbatim>\<open>Object.entries(data.amounts)\<close>: an object holds each key once, so the recipients
  of a file are pairwise different strings. An amount is the integer its decimal string
  denotes. The fields \<^verbatim>\<open>amounts\<close> and \<^verbatim>\<open>id\<close> are named \<open>data_amounts\<close> and
  \<open>dist_id\<close>.
\<close>

record distribution_data =
  token :: address
  data_amounts :: "(address \<times> int) list"
  distributionTypeId :: int
  dist_id :: int

text \<open>
  The ledger: \<^verbatim>\<open>Record<string, number>\<close>, keyed by the distribution id (the key is the
  id's decimal string, here the id itself).
\<close>

type_synonym migrations = "int \<rightharpoonup> int"

text \<open>
  What a run finds around it: the environment variables, the network hardhat is
  connected to, the files (\<open>None\<close> for a file that does not exist), the clock in
  milliseconds, and the state of the chain. The chain is a parameter: \<open>'c\<close> is whatever
  state the contracts keep.
\<close>

record 'c env =
  FILENAME :: "string option"
  WRITE :: "string option"
  BATCH_SENDER_KEY :: "string option"
  SKIP_MIGRATION_VALIDATION :: "string option"
  DRY_RUN :: "string option"
  network_name :: string
  distribution_files :: "string \<rightharpoonup> distribution_data"
  migrations_file :: "migrations option"
  now_ms :: int
  chain :: 'c

text \<open>
  The contracts and helpers the script calls and that are not among the source files; they
  are parameters. A transaction (\<open>approve\<close>, \<open>sendAndEmit\<close>) answers the next state of the
  chain, or \<open>None\<close> when sending it or waiting for it throws. \<open>callStatic_sendAndEmit\<close>
  is the simulation of a call: it changes nothing and says whether the call went through.
  \<open>allowance\<close> is a view. The arguments are the chain, the signer, and then those of the
  contract's function; \<open>sendAndEmit\<close> is called on the contract at \<open>batchSenderAddress\<close>.
\<close>

record 'c contracts =
  getDistributionTypeName :: "int \<Rightarrow> string option"
  wallet_address :: "string \<Rightarrow> address"
  allowance :: "'c \<Rightarrow> address \<Rightarrow> address \<Rightarrow> address \<Rightarrow> int"
  approve :: "'c \<Rightarrow> address \<Rightarrow> address \<Rightarrow> address \<Rightarrow> int \<Rightarrow> 'c option"
  sendAndEmit :: "'c \<Rightarrow> address \<Rightarrow> address \<Rightarrow> address list \<Rightarrow> int list \<Rightarrow> int \<Rightarrow> 'c option"
  callStatic_sendAndEmit ::
    "'c \<Rightarrow> address \<Rightarrow> address \<Rightarrow> address list \<Rightarrow> int list \<Rightarrow> int \<Rightarrow> bool"

text \<open>
  The calls a run makes that reach the chain, in order, each with the state of the chain
  it was made in. \<open>Approve token spender amount\<close>; the other two carry the token, the
  recipients, the amounts and the distribution type.
\<close>

datatype call =
    Approve address address int
  | SendAndEmit address "address list" "int list" int
  | CallStatic address "address list" "int list" int

text \<open>
  How a run ends: its result (\<open>Inl\<close> the error thrown), the calls it made, the chain, and
  the content of the ledger file afterwards.
\<close>

record 'c outcome =
  result :: "send_error + unit"
  calls :: "('c \<times> call) list"
  chain_after :: 'c
  migrations_after :: "migrations option"

text \<open>A run that stops without writing the ledger file.\<close>

definition stopped ::
  "'c env \<Rightarrow> send_error + unit \<Rightarrow> ('c \<times> call) list \<Rightarrow> 'c \<Rightarrow> 'c outcome" where
  "stopped env r log ch =
     \<lparr>result = r, calls = log, chain_after = ch, migrations_after = migrations_file env\<rparr>"

text \<open>An environment variable is truthy when it is set and not the empty string.\<close>

definition truthy :: "string option \<Rightarrow> bool" where
  "truthy v = (case v of None \<Rightarrow> False | Some s \<Rightarrow> s \<noteq> [])"

text \<open>
  \<^verbatim>\<open>range(start, end, step)\<close> of lodash: \<open>ceil((end - start) / (step || 1))\<close> numbers,
  or none when that is negative, starting at \<open>start\<close> and growing by \<open>step\<close>. With a
  step of zero the start is repeated.
\<close>

definition lodash_range :: "nat \<Rightarrow> nat \<Rightarrow> nat \<Rightarrow> nat list" where
  "lodash_range start stop step =
     (let s = (if step = 0 then 1 else step);
          n = (stop - start + s - 1) div s
      in map (\<lambda>i. start + i * step) [0..<n])"

text \<open>\<^verbatim>\<open>xs.slice(from, to)\<close> for indices that are not negative.\<close>

definition slice :: "nat \<Rightarrow> nat \<Rightarrow> 'a list \<Rightarrow> 'a list" where
  "slice from to xs = take (to - from) (drop from xs)"


text \<open>
  \<^verbatim>\<open>readDistributionFile\<close>, lines 298 to 335. The file is looked up under the name
  \<^verbatim>\<open>FILENAME\<close> gives. The test of line 317 is that \<^verbatim>\<open>amounts\<close> is an object, which
  the type of \<open>distribution_data\<close> says already.
\<close>

definition readDistributionFile ::
  "'c contracts \<Rightarrow> 'c env \<Rightarrow> send_error + (distribution_data \<times> string)" where
  "readDistributionFile ops env =
     (case FILENAME env of
        None \<Rightarrow> Inl FilenameRequired
      | Some filename \<Rightarrow>
          if filename = [] then Inl FilenameRequired
          else (case distribution_files env filename of
                  None \<Rightarrow> Inl FileNotReadable
                | Some data \<Rightarrow>
                    if token data = [] then Inl (InvalidFileFormat ''token'')
                    else if distributionTypeId data = 0
                    then Inl (InvalidFileFormat ''distributionTypeId'')
                    else (case getDistributionTypeName ops (distributionTypeId data) of
                            None \<Rightarrow> Inl (UnknownDistributionType (distributionTypeId data))
                          | Some distributionTypeName \<Rightarrow>
                              if distributionTypeName = []
                              then Inl (UnknownDistributionType (distributionTypeId data))
                              else if dist_id data = 0 then Inl (InvalidFileFormat ''id'')
                              else Inr (data, distributionTypeName))))"

text \<open>\<^verbatim>\<open>readMigrations\<close>, lines 289 to 296: a missing file reads as the empty object.\<close>

definition readMigrations :: "'c env \<Rightarrow> migrations" where
  "readMigrations env = (case migrations_file env of None \<Rightarrow> Map.empty | Some m \<Rightarrow> m)"

text \<open>
  The test \<^verbatim>\<open>migrations[data.id]\<close> of line 174: the entry is there and its number is
  not zero.
\<close>

definition hasCompleted :: "migrations \<Rightarrow> int \<Rightarrow> bool" where
  "hasCompleted m i = (case m i of None \<Rightarrow> False | Some t \<Rightarrow> t \<noteq> 0)"

definition batchSenderAddress :: address where
  "batchSenderAddress = ''0x5384E6cAd96B2877B5B3337A277577053BD1941D''"

text \<open>
  The loop of lines 241 to 252 over the recipients of one batch. \<open>seenRecipients\<close> is the
  set of line 233; the loop looks a recipient up in it and never adds one.
\<close>

fun checkRecipients :: "address list \<Rightarrow> address list \<Rightarrow> nat \<Rightarrow> nat \<Rightarrow> send_error + unit" where
  "checkRecipients seenRecipients [] from to = Inr ()"
| "checkRecipients seenRecipients (recipient # rest) from to =
     (if recipient \<in> set seenRecipients then Inl (DuplicateRecipientError recipient from to)
      else checkRecipients seenRecipients rest from to)"

text \<open>
  The loop of lines 234 to 268 over the starts of the batches. It answers the result, the
  chain, and the calls made. \<open>seenRecipients\<close> goes from one batch to the next as it is.
\<close>

fun sendBatches ::
  "'c contracts \<Rightarrow> bool \<Rightarrow> address \<Rightarrow> distribution_data \<Rightarrow> address list \<Rightarrow> int list
     \<Rightarrow> nat \<Rightarrow> address list \<Rightarrow> nat list \<Rightarrow> 'c
     \<Rightarrow> (send_error + unit) \<times> 'c \<times> ('c \<times> call) list" where
  "sendBatches ops dryRun signer data recipients amounts batchSize seenRecipients [] ch =
     (Inr (), ch, [])"
| "sendBatches ops dryRun signer data recipients amounts batchSize seenRecipients (from # froms) ch =
     (let to = min (from + batchSize) (length amounts);
          batchAmounts = slice from to amounts;
          batchRecipients = slice from to recipients
      in case checkRecipients seenRecipients batchRecipients from to of
           Inl e \<Rightarrow> (Inl e, ch, [])
         | Inr u \<Rightarrow>
             if dryRun
             then (let c = CallStatic (token data) batchRecipients batchAmounts
                             (distributionTypeId data)
                   in if callStatic_sendAndEmit ops ch signer (token data) batchRecipients
                           batchAmounts (distributionTypeId data)
                      then (case sendBatches ops dryRun signer data recipients amounts
                                   batchSize seenRecipients froms ch of
                              (r, ch', log) \<Rightarrow> (r, ch', (ch, c) # log))
                      else (Inl SubmissionError, ch, [(ch, c)]))
             else (let c = SendAndEmit (token data) batchRecipients batchAmounts
                             (distributionTypeId data)
                   in case sendAndEmit ops ch signer (token data) batchRecipients batchAmounts
                             (distributionTypeId data) of
                        None \<Rightarrow> (Inl SubmissionError, ch, [(ch, c)])
                      | Some ch1 \<Rightarrow>
                          (case sendBatches ops dryRun signer data recipients amounts
                                  batchSize seenRecipients froms ch1 of
                             (r, ch', log) \<Rightarrow> (r, ch', (ch, c) # log))))"

text \<open>Lines 221 to 230: one look at the allowance, and an approval of the whole sum.\<close>

definition approveIfNeeded ::
  "'c contracts \<Rightarrow> address \<Rightarrow> distribution_data \<Rightarrow> int \<Rightarrow> 'c
     \<Rightarrow> (send_error + unit) \<times> 'c \<times> ('c \<times> call) list" where
  "approveIfNeeded ops signerAddress data totalAmount ch =
     (if allowance ops ch (token data) signerAddress batchSenderAddress < totalAmount
      then (case approve ops ch signerAddress (token data) batchSenderAddress totalAmount of
              None \<Rightarrow>
                (Inl SubmissionError, ch, [(ch, Approve (token data) batchSenderAddress totalAmount)])
            | Some ch1 \<Rightarrow>
                (Inr (), ch1, [(ch, Approve (token data) batchSenderAddress totalAmount)]))
      else (Inr (), ch, []))"

text \<open>The branch of line 207, lines 208 to 271.\<close>

definition sendTransactions ::
  "'c contracts \<Rightarrow> 'c env \<Rightarrow> distribution_data \<Rightarrow> migrations \<Rightarrow> address list \<Rightarrow> int list
     \<Rightarrow> string \<Rightarrow> 'c outcome" where
  "sendTransactions ops env data migrations recipients amounts key =
     (let signerAddress = wallet_address ops key;
          batchSize = 150;
          totalAmount = sum_list amounts
      in case approveIfNeeded ops signerAddress data totalAmount (chain env) of
           (Inl e, ch1, log1) \<Rightarrow> stopped env (Inl e) log1 ch1
         | (Inr u, ch1, log1) \<Rightarrow>
             (case sendBatches ops (truthy (DRY_RUN env)) signerAddress data recipients amounts
                     batchSize [] (lodash_range 0 (length amounts) batchSize) ch1 of
                (Inl e, ch2, log2) \<Rightarrow> stopped env (Inl e) (log1 @ log2) ch2
              | (Inr u', ch2, log2) \<Rightarrow>
                  \<lparr>result = Inr (), calls = log1 @ log2, chain_after = ch2,
                   migrations_after =
                     Some (migrations(dist_id data \<mapsto> now_ms env div 1000))\<rparr>))"

text \<open>\<^verbatim>\<open>main\<close> from line 180 on, after the ledger has been looked at.\<close>

definition sendDistribution ::
  "'c contracts \<Rightarrow> 'c env \<Rightarrow> distribution_data \<Rightarrow> migrations \<Rightarrow> 'c outcome" where
  "sendDistribution ops env data migrations =
     (let shouldSendTxn = (WRITE env = Some ''true'')
      in if shouldSendTxn \<and> \<not> truthy (BATCH_SENDER_KEY env)
         then stopped env (Inl BatchSenderKeyRequired) [] (chain env)
         else if network_name env \<noteq> ''arbitrum''
         then stopped env (Inl (UnsupportedNetwork (network_name env))) [] (chain env)
         else (let recipients = map fst (data_amounts data);
                   amounts = map snd (data_amounts data)
               in if shouldSendTxn
                  then (case BATCH_SENDER_KEY env of
                          None \<Rightarrow> stopped env (Inl BatchSenderKeyRequired) [] (chain env)
                        | Some key \<Rightarrow>
                            sendTransactions ops env data migrations recipients amounts key)
                  else stopped env (Inr ()) [] (chain env)))"

text \<open>\<^verbatim>\<open>main\<close>, lines 170 to 275.\<close>

definition batchSend_main :: "'c contracts \<Rightarrow> 'c env \<Rightarrow> 'c outcome" where
  "batchSend_main ops env =
     (case readDistributionFile ops env of
        Inl e \<Rightarrow> stopped env (Inl e) [] (chain env)
      | Inr (data, distributionTypeName) \<Rightarrow>
          (let migrations = readMigrations env
           in if hasCompleted migrations (dist_id data)
                   \<and> \<not> truthy (SKIP_MIGRATION_VALIDATION env)
              then stopped env (Inl (AlreadySentError (dist_id data))) [] (chain env)
              else sendDistribution ops env data migrations))"



section \<open>Vocabulary of the properties\<close>

text \<open>
  The sum the spec speaks of in its sentence on over-allocation: the rewards of the
  accounts that reach the threshold.
\<close>

definition includedRewardsSum :: "(address \<times> int) list \<Rightarrow> int" where
  "includedRewardsSum dist =
     sum_list (map snd (filter (\<lambda>p. MIN_REWARD_THRESHOLD \<le> snd p) dist))"

text \<open>
  The reward of an account in one market, as the spec gives it: for each entry of the
  account among the balances of the market, the balance times the rewards of the market
  divided by the supply of the market, the quotient cut towards zero as \<^verbatim>\<open>BigNumber.div\<close>
  cuts it (it is the floor when no amount is negative); nothing for a market without
  balances data. The reward of an account aggregated across all markets is the sum of
  these over the markets of the allocation.
\<close>

definition marketRewardOf :: "(address \<rightharpoonup> market_balances) \<Rightarrow> address \<times> int \<Rightarrow> address \<Rightarrow> int" where
  "marketRewardOf balancesData m account =
     (case balancesData (fst m) of
        None \<Rightarrow> 0
      | Some md \<Rightarrow>
          sum_list (map (\<lambda>p. sgn (snd p * snd m) * sgn (marketTokensSupply md)
                               * (\<bar>snd p * snd m\<bar> div \<bar>marketTokensSupply md\<bar>))
                     (filter (\<lambda>p. fst p = account) (userBalances md))))"

definition aggregatedReward ::
  "(address \<rightharpoonup> market_balances) \<Rightarrow> lp_allocation \<Rightarrow> address \<Rightarrow> int" where
  "aggregatedReward balancesData lpAllocationData account =
     sum_list (map (\<lambda>m. marketRewardOf balancesData m account)
                 (rewardsPerMarket lpAllocationData))"

text \<open>The reward an object of rewards holds for an account, zero for an account it lacks.\<close>

definition rewardIn :: "(address \<times> int) list \<Rightarrow> address \<Rightarrow> int" where
  "rewardIn dist account = (case map_of dist account of None \<Rightarrow> 0 | Some r \<Rightarrow> r)"

text \<open>
  What a call does to the chain: the next state, or \<open>None\<close> when the call throws. A
  simulation leaves the chain as it is.
\<close>

definition run_call :: "'c contracts \<Rightarrow> address \<Rightarrow> 'c \<Rightarrow> call \<Rightarrow> 'c option" where
  "run_call ops signer ch c =
     (case c of
        Approve tok spender amount \<Rightarrow> approve ops ch signer tok spender amount
      | SendAndEmit tok rs amts ty \<Rightarrow> sendAndEmit ops ch signer tok rs amts ty
      | CallStatic tok rs amts ty \<Rightarrow>
          if callStatic_sendAndEmit ops ch signer tok rs amts ty then Some ch else None)"

text \<open>A call went through: the transaction was confirmed, or the simulation succeeded.\<close>

definition call_ok :: "'c contracts \<Rightarrow> address \<Rightarrow> 'c \<Rightarrow> call \<Rightarrow> bool" where
  "call_ok ops signer ch c = (run_call ops signer ch c \<noteq> None)"


definition is_batch_call :: "call \<Rightarrow> bool" where
  "is_batch_call c =
     (case c of
        Approve tok spender amount \<Rightarrow> False
      | SendAndEmit tok rs amts ty \<Rightarrow> True
      | CallStatic tok rs amts ty \<Rightarrow> True)"



text \<open>
  The call the loop of \<^verbatim>\<open>main\<close> makes for the batch that starts at \<open>from\<close>: a
  simulation in a dry run, a transaction otherwise.
\<close>

definition batchCall ::
  "bool \<Rightarrow> distribution_data \<Rightarrow> address list \<Rightarrow> int list \<Rightarrow> nat \<Rightarrow> nat \<Rightarrow> call" where
  "batchCall dryRun data recipients amounts batchSize from =
     (let to = min (from + batchSize) (length amounts)
      in (if dryRun then CallStatic else SendAndEmit) (token data) (slice from to recipients)
           (slice from to amounts) (distributionTypeId data))"

text \<open>
  A stand-in for the contracts, to run the model on concrete inputs. The chain is one
  number, the allowance of the signer to the batch sender. An approval sets it. A batch
  goes through when no amount is negative and the allowance covers the sum, and then it
  uses up that much of the allowance.
\<close>

definition plain_token :: "int contracts" where
  "plain_token =
     \<lparr>getDistributionTypeName = (\<lambda>i. Some ''STIP LP incentives''),
      wallet_address = (\<lambda>key. ''0xC84f3398eDf6336E1Ef55b50Ca3F9f9f96B8b504''),
      allowance = (\<lambda>ch tok owner spender. ch),
      approve = (\<lambda>ch signer tok spender amount. Some amount),
      sendAndEmit = (\<lambda>ch signer tok rs amts ty.
         if list_all (\<lambda>a. 0 \<le> a) amts \<and> sum_list amts \<le> ch then Some (ch - sum_list amts)
         else None),
      callStatic_sendAndEmit = (\<lambda>ch signer tok rs amts ty.
         list_all (\<lambda>a. 0 \<le> a) amts \<and> sum_list amts \<le> ch)\<rparr>"

section \<open>Inputs of the example runs\<close>

text \<open>
  A distribution file that pays two accounts one and two tokens, and a run of it with
  write mode on, on Arbitrum, with no ledger file and no allowance yet.
\<close>

definition example_file :: distribution_data where
  "example_file =
     \<lparr>token = ''0x912CE59144191C1204E64559FE8253a0e49E6548'',
      data_amounts =
        [(''0xe7bfff2ab721264887230037940490351700a068'', 1000000000000000000),
         (''0x43ce1d475e06c65dd879f4ec644b8e0e10ff2b6d'', 2000000000000000000)],
      distributionTypeId = 1001,
      dist_id = 7\<rparr>"

definition example_env :: "int env" where
  "example_env =
     \<lparr>FILENAME = Some ''distribution.json'',
      WRITE = Some ''true'',
      BATCH_SENDER_KEY = Some ''0x01'',
      SKIP_MIGRATION_VALIDATION = None,
      DRY_RUN = None,
      network_name = ''arbitrum'',
      distribution_files = [''distribution.json'' \<mapsto> example_file],
      migrations_file = None,
      now_ms = 1700000000000,
      chain = 0\<rparr>"


text \<open>
  Balances of one market for the allocation examples: the supply, and what two accounts
  hold.
\<close>

definition one_market :: "int \<Rightarrow> int \<Rightarrow> int \<Rightarrow> address \<rightharpoonup> market_balances" where
  "one_market supply balanceA balanceB =
     [''0x70d95587d40A2caf56bd97485aB3Eec10Bee6336'' \<mapsto>
        \<lparr>marketTokensSupply = supply,
         userBalances =
           [(''0xe7bfff2ab721264887230037940490351700a068'', balanceA),
            (''0x43ce1d475e06c65dd879f4ec644b8e0e10ff2b6d'', balanceB)]\<rparr>]"

definition one_market_allocation :: "int \<Rightarrow> lp_allocation" where
  "one_market_allocation rewards =
     \<lparr>isActive = True,
      rewardsPerMarket = [(''0x70d95587d40A2caf56bd97485aB3Eec10Bee6336'', rewards)],
      totalRewards = rewards\<rparr>"

text \<open>
  Two markets of supply 20 tokens each, one account in each: the first holds 21 tokens
  (one more than the supply, which the reconciliation lets through), the second 19. Each
  market is allocated 2 tokens, the period 4.
\<close>

definition two_markets :: "address \<rightharpoonup> market_balances" where
  "two_markets =
     [''0x70d95587d40A2caf56bd97485aB3Eec10Bee6336'' \<mapsto>
        \<lparr>marketTokensSupply = 20000000000000000000,
         userBalances = [(''0xe7bfff2ab721264887230037940490351700a068'', 21000000000000000000)]\<rparr>,
      ''0x47c031236e19d024b42f8AE6780E44A573170703'' \<mapsto>
        \<lparr>marketTokensSupply = 20000000000000000000,
         userBalances = [(''0x43ce1d475e06c65dd879f4ec644b8e0e10ff2b6d'', 19000000000000000000)]\<rparr>]"

definition two_markets_allocation :: lp_allocation where
  "two_markets_allocation =
     \<lparr>isActive = True,
      rewardsPerMarket =
        [(''0x70d95587d40A2caf56bd97485aB3Eec10Bee6336'', 2000000000000000000),
         (''0x47c031236e19d024b42f8AE6780E44A573170703'', 2000000000000000000)],
      totalRewards = 4000000000000000000\<rparr>"

text \<open>
  Two markets for the threshold. The first has a supply of 20 tokens and rewards of 2
  tokens and one unit; its accounts hold 0.6, 10, 0.5 and 8.9 tokens. The second has a
  supply of 10 tokens and rewards of 1 token; its accounts hold 0.6 tokens, the first
  account of the first market again, and 9.4 tokens.
\<close>

definition threshold_markets :: "address \<rightharpoonup> market_balances" where
  "threshold_markets =
     [''0x70d95587d40A2caf56bd97485aB3Eec10Bee6336'' \<mapsto>
        \<lparr>marketTokensSupply = 20000000000000000000,
         userBalances =
           [(''0xFb11f15f206bdA02c224EDC744b0E50E46137046'', 600000000000000000),
            (''0xE47b36382DC50b90bCF6176Ddb159C4b9333A7AB'', 10000000000000000000),
            (''0xC84f3398eDf6336E1Ef55b50Ca3F9f9f96B8b504'', 500000000000000000),
            (''0xf1e1B2F4796d984CCb8485d43db0c64B83C1FA6d'', 8900000000000000000)]\<rparr>,
      ''0x47c031236e19d024b42f8AE6780E44A573170703'' \<mapsto>
        \<lparr>marketTokensSupply = 10000000000000000000,
         userBalances =
           [(''0xFb11f15f206bdA02c224EDC744b0E50E46137046'', 600000000000000000),
            (''0xe3764a841e4a5EDa05422e1aC7FaF1266DE079e7'', 9400000000000000000)]\<rparr>]"

definition threshold_allocation :: lp_allocation where
  "threshold_allocation =
     \<lparr>isActive = True,
      rewardsPerMarket =
        [(''0x70d95587d40A2caf56bd97485aB3Eec10Bee6336'', 2000000000000000001),
         (''0x47c031236e19d024b42f8AE6780E44A573170703'', 1000000000000000000)],
      totalRewards = 3000000000000000001\<rparr>"

section \<open>Lemmas on the allocation\<close>

subsection \<open>Division and the distribution object\<close>

lemma bn_div_nonneg: "0 \<le> a \<Longrightarrow> 0 < b \<Longrightarrow> bn_div a b = Inr (a div b)"
  by (cases "a = 0") (auto simp: bn_div_def)

lemma sum_addUserRewards: "sum_list (map snd (addUserRewards a r d)) = sum_list (map snd d) + r"
  by (induction d) auto

lemma keys_addUserRewards:
  "map fst (addUserRewards a r d) = (if a \<in> set (map fst d) then map fst d else map fst d @ [a])"
  by (induction d) (force+)

lemma distinct_addUserRewards: "distinct (map fst d) \<Longrightarrow> distinct (map fst (addUserRewards a r d))"
  by (simp add: keys_addUserRewards)

lemma div_add_sub: 
  assumes "0 < (c::int)" shows "a div c + b div c \<le> (a + b) div c"
proof -
  have "(a div c) * c = a - a mod c" "(b div c) * c = b - b mod c"
    by (simp_all add: minus_mod_eq_div_mult)
  moreover have "0 \<le> a mod c" "0 \<le> b mod c" using assms by simp_all
  ultimately have "(a div c) * c \<le> a" "(b div c) * c \<le> b" by simp_all
  then have "(a div c + b div c) * c \<le> a + b" by (simp add: distrib_right)
  then have "((a div c + b div c) * c) div c \<le> (a + b) div c" using assms by (rule zdiv_mono1)
  then show ?thesis using assms by simp
qed

subsection \<open>The loops\<close>

lemma thresholdLoop_char:
  "thresholdLoop T xs u j =
     (if T = 0 \<and> (\<exists>p \<in> set xs. MIN_REWARD_THRESHOLD \<le> snd p) then Inl DivisionByZero
      else Inr (u + sum_list (map snd xs), j @ filter (\<lambda>p. MIN_REWARD_THRESHOLD \<le> snd p) xs))"
  by (induction T xs u j rule: thresholdLoop.induct) (force simp: bn_div_def Let_def)+

lemma sum_insort: "sum_list (map g (insort_key f x xs)) = (g x :: int) + sum_list (map g xs)"
  by (induction xs) auto

lemma sum_sort_key: "sum_list (map (g::'a \<Rightarrow> int) (sort_key f xs)) = sum_list (map g xs)"
  by (induction xs) (auto simp: sum_insort)

lemma marketsLoop_append:
  "marketsLoop bd (pre @ post) d0 =
     (case marketsLoop bd pre d0 of Inl e \<Rightarrow> Inl e | Inr d \<Rightarrow> marketsLoop bd post d)"
  by (induction pre arbitrary: d0) (auto split: sum.splits)

lemma marketsLoop_Inl:
  "marketsLoop bd ms d0 = Inl e \<longleftrightarrow>
     (\<exists>pre m post d. ms = pre @ m # post \<and> marketsLoop bd pre d0 = Inr d \<and> processMarket bd m d = Inl e)"
proof
  show "marketsLoop bd ms d0 = Inl e \<Longrightarrow>
    \<exists>pre m post d. ms = pre @ m # post \<and> marketsLoop bd pre d0 = Inr d \<and> processMarket bd m d = Inl e"
  proof (induction ms arbitrary: d0)
    case Nil
    then show ?case by simp
  next
    case (Cons m ms)
    show ?case
    proof (cases "processMarket bd m d0")
      case (Inl e')
      with Cons.prems have "e' = e" by simp
      with Inl have "m # ms = [] @ m # ms \<and> marketsLoop bd [] d0 = Inr d0 \<and> processMarket bd m d0 = Inl e"
        by simp
      then show ?thesis by blast
    next
      case (Inr d1)
      with Cons.prems have "marketsLoop bd ms d1 = Inl e" by simp
      from Cons.IH[OF this] obtain pre m' post d where
        h: "ms = pre @ m' # post" "marketsLoop bd pre d1 = Inr d" "processMarket bd m' d = Inl e"
        by blast
      have "m # ms = (m # pre) @ m' # post \<and> marketsLoop bd (m # pre) d0 = Inr d \<and> processMarket bd m' d = Inl e"
        using h Inr by simp
      then show ?thesis by blast
    qed
  qed
next
  assume "\<exists>pre m post d. ms = pre @ m # post \<and> marketsLoop bd pre d0 = Inr d \<and> processMarket bd m d = Inl e"
  then show "marketsLoop bd ms d0 = Inl e"
    by (auto simp: marketsLoop_append)
qed

lemma userRewardsOf_Inl:
  "userRewardsOf b R S = Inl e \<Longrightarrow> e = DivisionByZero \<and> S = 0"
  by (simp add: userRewardsOf_def bn_div_def split: if_splits)

lemma userRewardsLoop_Inl:
  "userRewardsLoop R S ubs d = Inl e \<Longrightarrow> e = DivisionByZero \<and> S = 0"
proof (induction R S ubs d rule: userRewardsLoop.induct)
  case (1 marketRewards tokensSupply dist)
  then show ?case by simp
next
  case (2 marketRewards tokensSupply userAccount userBalance rest dist)
  show ?case
  proof (cases "userRewardsOf userBalance marketRewards tokensSupply")
    case (Inl e')
    with "2.prems" userRewardsOf_Inl[OF Inl] show ?thesis by simp
  next
    case (Inr r)
    with "2.prems" "2.IH"[OF Inr] show ?thesis by simp
  qed
qed

subsection \<open>One market\<close>

lemma expandDecimals_1_18: "expandDecimals 1 18 = 1000000000000000000"
  by (simp add: expandDecimals_def)

lemma threshold_value: "MIN_REWARD_THRESHOLD = 100000000000000000"
  by (simp add: MIN_REWARD_THRESHOLD_def expandDecimals_def)

lemma processMarket_Some:
  "bd m = Some md \<Longrightarrow>
   processMarket bd (m, r) d =
     (if 1000000000000000000 < \<bar>sum_list (map snd (userBalances md)) - marketTokensSupply md\<bar>
      then Inl (ReconciliationError m (marketTokensSupply md) (sum_list (map snd (userBalances md))))
      else userRewardsLoop r (marketTokensSupply md) (userBalances md) d)"
  by (simp add: processMarket_def Let_def expandDecimals_1_18)

lemma processMarket_None: "bd m = None \<Longrightarrow> processMarket bd (m, r) d = Inl (NoBalancesData m)"
  by (simp add: processMarket_def)

lemma processMarket_reconciliation:
  "processMarket bd (m, r) d = Inl (ReconciliationError m' s u) \<longleftrightarrow>
     (\<exists>md. bd m = Some md \<and> m' = m \<and> s = marketTokensSupply md
        \<and> u = sum_list (map snd (userBalances md))
        \<and> 1000000000000000000 < \<bar>u - s\<bar>)"
proof (cases "bd m")
  case None
  then show ?thesis by (simp add: processMarket_None)
next
  case (Some md)
  show ?thesis
  proof (cases "1000000000000000000 < \<bar>sum_list (map snd (userBalances md)) - marketTokensSupply md\<bar>")
    case True
    with Some show ?thesis by (auto simp: processMarket_Some)
  next
    case False
    have "userRewardsLoop r (marketTokensSupply md) (userBalances md) d \<noteq> Inl (ReconciliationError m' s u)"
      using userRewardsLoop_Inl by fastforce
    with Some False show ?thesis by (auto simp: processMarket_Some)
  qed
qed

subsection \<open>The run\<close>

lemma main_alloc_unfold:
  "stipLpIncentives_main ov bd alloc =
     (if \<not> isActive alloc then Inl NoIncentives
      else case marketsLoop bd (rewardsPerMarket alloc) [] of
             Inl e \<Rightarrow> Inl e
           | Inr dist \<Rightarrow>
               if totalRewards alloc = 0 \<and> (\<exists>p \<in> set dist. MIN_REWARD_THRESHOLD \<le> snd p)
               then Inl DivisionByZero
               else if totalRewards alloc < sum_list (map snd dist)
               then Inl (OverAllocationError (sum_list (map snd dist)) (totalRewards alloc))
               else Inr (ov (filter (\<lambda>p. MIN_REWARD_THRESHOLD \<le> snd p) (sort_key snd dist))))"
proof (cases "marketsLoop bd (rewardsPerMarket alloc) []")
  case (Inl e)
  then show ?thesis by (simp add: stipLpIncentives_main_def)
next
  case (Inr dist)
  then show ?thesis
    by (auto simp: stipLpIncentives_main_def thresholdLoop_char sum_sort_key)
qed

lemma processMarket_not_over:
  "processMarket bd mr d \<noteq> Inl (OverAllocationError u t)"
proof (cases mr)
  case (Pair m r)
  show ?thesis
  proof (cases "bd m")
    case None
    with Pair show ?thesis by (simp add: processMarket_None)
  next
    case (Some md)
    have "userRewardsLoop r (marketTokensSupply md) (userBalances md) d \<noteq> Inl (OverAllocationError u t)"
      using userRewardsLoop_Inl by fastforce
    with Pair Some show ?thesis by (simp add: processMarket_Some)
  qed
qed

lemma marketsLoop_not_over:
  "marketsLoop bd ms d \<noteq> Inl (OverAllocationError u t)"
proof
  assume "marketsLoop bd ms d = Inl (OverAllocationError u t)"
  then obtain mr d' where "processMarket bd mr d' = Inl (OverAllocationError u t)"
    unfolding marketsLoop_Inl by blast
  then show False by (simp add: processMarket_not_over)
qed

subsection \<open>Sums of rewards\<close>

lemma userRewardsOf_floor:
  "0 < S \<Longrightarrow> 0 \<le> R \<Longrightarrow> 0 \<le> b \<Longrightarrow> userRewardsOf b R S = Inr (b * R div S)"
  by (simp add: userRewardsOf_def bn_div_nonneg)

lemma userRewardsLoop_sum:
  assumes "0 < S" "0 \<le> R"
  shows "list_all (\<lambda>p. 0 \<le> snd p) ubs \<Longrightarrow>
     \<exists>d'. userRewardsLoop R S ubs d = Inr d' \<and>
          sum_list (map snd d') =
            sum_list (map snd d) + sum_list (map (\<lambda>p. snd p * R div S) ubs)"
proof (induction ubs arbitrary: d)
  case Nil
  then show ?case by simp
next
  case (Cons p ubs)
  obtain a b where p: "p = (a, b)" by (cases p)
  with Cons.prems have b: "0 \<le> b" and rest: "list_all (\<lambda>p. 0 \<le> snd p) ubs" by simp_all
  from Cons.IH[OF rest, of "addUserRewards a (b * R div S) d"] obtain d' where
    d': "userRewardsLoop R S ubs (addUserRewards a (b * R div S) d) = Inr d'"
        "sum_list (map snd d') = sum_list (map snd (addUserRewards a (b * R div S) d))
            + sum_list (map (\<lambda>p. snd p * R div S) ubs)"
    by blast
  have "userRewardsLoop R S (p # ubs) d = Inr d'"
    using d'(1) by (simp add: p userRewardsOf_floor[OF assms b])
  moreover have "sum_list (map snd d') =
            sum_list (map snd d) + sum_list (map (\<lambda>p. snd p * R div S) (p # ubs))"
    using d'(2) by (simp add: p sum_addUserRewards)
  ultimately show ?case by blast
qed

lemma sum_floor_le:
  assumes "0 < (S::int)"
  shows "sum_list (map (\<lambda>p. snd p * R div S) ubs) \<le> (sum_list (map snd ubs) * R) div S"
proof (induction ubs)
  case Nil
  then show ?case by simp
next
  case (Cons p ubs)
  have "snd p * R div S + sum_list (map (\<lambda>p. snd p * R div S) ubs)
        \<le> snd p * R div S + (sum_list (map snd ubs) * R) div S"
    using Cons.IH by simp
  also have "\<dots> \<le> (snd p * R + sum_list (map snd ubs) * R) div S"
    by (rule div_add_sub[OF assms])
  finally show ?case by (simp add: distrib_right)
qed

subsection \<open>The accounts of the distribution\<close>

lemma userRewardsLoop_distinct:
  "userRewardsLoop R S ubs d = Inr d' \<Longrightarrow> distinct (map fst d) \<Longrightarrow> distinct (map fst d')"
proof (induction R S ubs d arbitrary: d' rule: userRewardsLoop.induct)
  case (1 marketRewards tokensSupply dist)
  then show ?case by simp
next
  case (2 marketRewards tokensSupply userAccount userBalance rest dist)
  show ?case
  proof (cases "userRewardsOf userBalance marketRewards tokensSupply")
    case (Inl e)
    with "2.prems" show ?thesis by simp
  next
    case (Inr r)
    with "2.prems" have "userRewardsLoop marketRewards tokensSupply rest
        (addUserRewards userAccount r dist) = Inr d'" by simp
    from "2.IH"[OF Inr this] "2.prems"(2) show ?thesis
      by (simp add: distinct_addUserRewards)
  qed
qed

lemma processMarket_distinct:
  "processMarket bd mr d = Inr d' \<Longrightarrow> distinct (map fst d) \<Longrightarrow> distinct (map fst d')"
proof (cases mr)
  case (Pair m r)
  assume a: "processMarket bd mr d = Inr d'" "distinct (map fst d)"
  show ?thesis
  proof (cases "bd m")
    case None
    with Pair a show ?thesis by (simp add: processMarket_None)
  next
    case (Some md)
    with Pair a have "userRewardsLoop r (marketTokensSupply md) (userBalances md) d = Inr d'"
      by (simp add: processMarket_Some split: if_splits)
    from userRewardsLoop_distinct[OF this a(2)] show ?thesis .
  qed
qed

lemma marketsLoop_distinct:
  "marketsLoop bd ms d = Inr d' \<Longrightarrow> distinct (map fst d) \<Longrightarrow> distinct (map fst d')"
proof (induction ms arbitrary: d)
  case Nil
  then show ?case by simp
next
  case (Cons mr ms)
  show ?case
  proof (cases "processMarket bd mr d")
    case (Inl e)
    with Cons.prems show ?thesis by simp
  next
    case (Inr d1)
    with Cons.prems have "marketsLoop bd ms d1 = Inr d'" by simp
    from Cons.IH[OF this processMarket_distinct[OF Inr Cons.prems(2)]] show ?thesis .
  qed
qed

lemma distinct_map_insort:
  "distinct (map f (insort_key g x xs)) \<longleftrightarrow> f x \<notin> f ` set xs \<and> distinct (map f xs)"
  by (induction xs) (auto simp: set_insort_key)

lemma distinct_map_sort: "distinct (map f (sort_key g xs)) \<longleftrightarrow> distinct (map f xs)"
  by (induction xs) (auto simp: distinct_map_insort)

lemma map_of_filter_sort:
  assumes "distinct (map fst xs)"
  shows "map_of (filter P (sort_key snd xs)) a =
     (case map_of xs a of None \<Rightarrow> None | Some r \<Rightarrow> if P (a, r) then Some r else None)"
proof -
  let ?ys = "filter P (sort_key snd xs)"
  have dy: "distinct (map fst ?ys)"
    using assms by (simp add: distinct_map_filter distinct_map_sort)
  show ?thesis
  proof (cases "map_of xs a")
    case None
    then have "a \<notin> fst ` set xs" by (simp add: map_of_eq_None_iff)
    then have "a \<notin> fst ` set ?ys" by auto
    then have "map_of ?ys a = None" by (simp add: map_of_eq_None_iff)
    with None show ?thesis by simp
  next
    case (Some r)
    then have in_xs: "(a, r) \<in> set xs" by (rule map_of_SomeD)
    show ?thesis
    proof (cases "P (a, r)")
      case True
      with in_xs have "(a, r) \<in> set ?ys" by simp
      with dy have "map_of ?ys a = Some r" by (simp del: set_filter)
      with Some True show ?thesis by simp
    next
      case False
      have "map_of ?ys a = None"
      proof (rule ccontr)
        assume "map_of ?ys a \<noteq> None"
        then obtain r' where "map_of ?ys a = Some r'" by blast
        then have "(a, r') \<in> set ?ys" by (rule map_of_SomeD)
        then have "(a, r') \<in> set xs" "P (a, r')" by simp_all
        with assms in_xs have "r' = r" by (meson eq_key_imp_eq_value)
        with \<open>P (a, r')\<close> False show False by simp
      qed
      with Some False show ?thesis by simp
    qed
  qed
qed

subsection \<open>The reward aggregated across the markets\<close>

lemma rewardIn_addUserRewards:
  "rewardIn (addUserRewards a r d) x = rewardIn d x + (if x = a then r else 0)"
  by (induction d) (auto simp: rewardIn_def)

lemma userRewardsOf_Inr:
  "userRewardsOf b R S = Inr r \<Longrightarrow> r = sgn (b * R) * sgn S * (\<bar>b * R\<bar> div \<bar>S\<bar>)"
  by (simp add: userRewardsOf_def bn_div_def split: if_splits)

lemma userRewardsLoop_rewardIn:
  "userRewardsLoop R S ubs d = Inr d' \<Longrightarrow>
     rewardIn d' x = rewardIn d x +
       sum_list (map (\<lambda>p. sgn (snd p * R) * sgn S * (\<bar>snd p * R\<bar> div \<bar>S\<bar>))
                   (filter (\<lambda>p. fst p = x) ubs))"
proof (induction R S ubs d arbitrary: d' rule: userRewardsLoop.induct)
  case (1 marketRewards tokensSupply dist)
  then show ?case by simp
next
  case (2 marketRewards tokensSupply userAccount userBalance rest dist)
  show ?case
  proof (cases "userRewardsOf userBalance marketRewards tokensSupply")
    case (Inl e)
    with "2.prems" show ?thesis by simp
  next
    case (Inr r)
    with "2.prems" have "userRewardsLoop marketRewards tokensSupply rest
        (addUserRewards userAccount r dist) = Inr d'" by simp
    from "2.IH"[OF Inr this] userRewardsOf_Inr[OF Inr] show ?thesis
      by (auto simp: rewardIn_addUserRewards)
  qed
qed

lemma processMarket_rewardIn:
  assumes "processMarket bd mr d = Inr d'"
  shows "rewardIn d' x = rewardIn d x + marketRewardOf bd mr x"
proof -
  obtain m r where mr: "mr = (m, r)" by (cases mr)
  show ?thesis
  proof (cases "bd m")
    case None
    with assms mr show ?thesis by (simp add: processMarket_None)
  next
    case (Some md)
    with assms mr have "userRewardsLoop r (marketTokensSupply md) (userBalances md) d = Inr d'"
      by (simp add: processMarket_Some split: if_splits)
    from userRewardsLoop_rewardIn[OF this, of x] Some mr show ?thesis
      by (simp add: marketRewardOf_def)
  qed
qed

lemma marketsLoop_rewardIn:
  "marketsLoop bd ms d = Inr d' \<Longrightarrow>
     rewardIn d' x = rewardIn d x + sum_list (map (\<lambda>m. marketRewardOf bd m x) ms)"
proof (induction ms arbitrary: d)
  case Nil
  then show ?case by simp
next
  case (Cons mr ms)
  show ?case
  proof (cases "processMarket bd mr d")
    case (Inl e)
    with Cons.prems show ?thesis by simp
  next
    case (Inr d1)
    with Cons.prems have "marketsLoop bd ms d1 = Inr d'" by simp
    from Cons.IH[OF this] processMarket_rewardIn[OF Inr, of x] show ?thesis by simp
  qed
qed

lemma marketsLoop_aggregated:
  assumes "marketsLoop bd (rewardsPerMarket alloc) [] = Inr dist"
  shows "map_of dist a = None \<and> aggregatedReward bd alloc a = 0
       \<or> map_of dist a = Some (aggregatedReward bd alloc a)"
  using marketsLoop_rewardIn[OF assms, of a]
  by (cases "map_of dist a") (simp_all add: rewardIn_def aggregatedReward_def)

subsection \<open>The examples\<close>

lemmas alloc_defs = processMarket_def Let_def expandDecimals_def userRewardsOf_def bn_div_def
  MIN_REWARD_THRESHOLD_def one_market_def one_market_allocation_def two_markets_def
  two_markets_allocation_def

lemma over_example_markets:
  "marketsLoop (one_market 20000000000000000000 20000000000000000000 900000000000000000)
     (rewardsPerMarket (one_market_allocation 2000000000000000000)) [] =
   Inr [(''0xe7bfff2ab721264887230037940490351700a068'', 2000000000000000000),
        (''0x43ce1d475e06c65dd879f4ec644b8e0e10ff2b6d'', 90000000000000000)]"
  by (simp add: alloc_defs)

lemma threshold_markets_loop:
  "marketsLoop threshold_markets (rewardsPerMarket threshold_allocation) [] =
     Inr [(''0xFb11f15f206bdA02c224EDC744b0E50E46137046'', 120000000000000000),
          (''0xE47b36382DC50b90bCF6176Ddb159C4b9333A7AB'', 1000000000000000000),
          (''0xC84f3398eDf6336E1Ef55b50Ca3F9f9f96B8b504'', 50000000000000000),
          (''0xf1e1B2F4796d984CCb8485d43db0c64B83C1FA6d'', 890000000000000000),
          (''0xe3764a841e4a5EDa05422e1aC7FaF1266DE079e7'', 940000000000000000)]"
  by (simp add: processMarket_def Let_def expandDecimals_def userRewardsOf_def bn_div_def
        threshold_markets_def threshold_allocation_def)

lemma threshold_aggregated:
  "aggregatedReward threshold_markets threshold_allocation
     ''0xFb11f15f206bdA02c224EDC744b0E50E46137046'' = 120000000000000000"
  "aggregatedReward threshold_markets threshold_allocation
     ''0xE47b36382DC50b90bCF6176Ddb159C4b9333A7AB'' = 1000000000000000000"
  "aggregatedReward threshold_markets threshold_allocation
     ''0xC84f3398eDf6336E1Ef55b50Ca3F9f9f96B8b504'' = 50000000000000000"
  by (simp_all add: aggregatedReward_def marketRewardOf_def threshold_markets_def
        threshold_allocation_def)

section \<open>Lemmas on the submission\<close>

subsection \<open>The loop over the batches\<close>

lemma checkRecipients_empty: "checkRecipients [] rs f t = Inr ()"
  by (induction rs) auto

lemma sendBatches_step:
  "sendBatches ops dry s data rs amts bs [] (f # froms) ch =
     (case run_call ops s ch (batchCall dry data rs amts bs f) of
        None \<Rightarrow> (Inl SubmissionError, ch, [(ch, batchCall dry data rs amts bs f)])
      | Some ch1 \<Rightarrow>
          (case sendBatches ops dry s data rs amts bs [] froms ch1 of
             (r, ch', log) \<Rightarrow> (r, ch', (ch, batchCall dry data rs amts bs f) # log)))"
  by (simp add: Let_def checkRecipients_empty batchCall_def run_call_def split: option.splits)

declare sendBatches.simps(2) [simp del]

lemma sendBatches_calls:
  "sendBatches ops dry s data rs amts bs [] froms ch = (r, ch', log) \<Longrightarrow>
     length log \<le> length froms \<and>
     map snd log = map (batchCall dry data rs amts bs) (take (length log) froms)"
proof (induction froms arbitrary: ch r ch' log)
  case Nil
  then show ?case by simp
next
  case (Cons f froms)
  from Cons.prems show ?case
    by (auto simp: sendBatches_step split: option.splits prod.splits dest: Cons.IH)
qed

lemma sendBatches_Inr:
  "sendBatches ops dry s data rs amts bs [] froms ch = (Inr (), ch', log) \<Longrightarrow>
     length log = length froms \<and> list_all (\<lambda>x. call_ok ops s (fst x) (snd x)) log"
proof (induction froms arbitrary: ch ch' log)
  case Nil
  then show ?case by simp
next
  case (Cons f froms)
  from Cons.prems show ?case
    by (auto simp: sendBatches_step call_ok_def split: option.splits prod.splits dest: Cons.IH)
qed

lemma sendBatches_Inl:
  "sendBatches ops dry s data rs amts bs [] froms ch = (Inl e, ch', log) \<Longrightarrow>
     e = SubmissionError \<and>
     (\<exists>pre x. log = pre @ [x] \<and> \<not> call_ok ops s (fst x) (snd x) \<and> ch' = fst x
        \<and> list_all (\<lambda>x. call_ok ops s (fst x) (snd x)) pre)"
proof (induction froms arbitrary: ch ch' log)
  case Nil
  then show ?case by simp
next
  case (Cons f froms)
  show ?case
  proof (cases "run_call ops s ch (batchCall dry data rs amts bs f)")
    case None
    with Cons.prems show ?thesis
      by (auto simp: sendBatches_step call_ok_def)
  next
    case (Some ch1)
    with Cons.prems obtain log1 where
      h: "sendBatches ops dry s data rs amts bs [] froms ch1 = (Inl e, ch', log1)"
         "log = (ch, batchCall dry data rs amts bs f) # log1"
      by (auto simp: sendBatches_step split: prod.splits)
    from Cons.IH[OF h(1)] obtain pre x where
      p: "e = SubmissionError" "log1 = pre @ [x]" "\<not> call_ok ops s (fst x) (snd x)" "ch' = fst x"
         "list_all (\<lambda>x. call_ok ops s (fst x) (snd x)) pre"
      by blast
    have "log = ((ch, batchCall dry data rs amts bs f) # pre) @ [x]" using h(2) p(2) by simp
    moreover have "list_all (\<lambda>x. call_ok ops s (fst x) (snd x)) ((ch, batchCall dry data rs amts bs f) # pre)"
      using p(5) Some by (simp add: call_ok_def)
    ultimately show ?thesis using p(1,3,4) by blast
  qed
qed

lemma batchCall_is_batch: "is_batch_call (batchCall dry data rs amts bs f)"
  by (simp add: batchCall_def is_batch_call_def Let_def)


subsection \<open>Ranges and slices\<close>










subsection \<open>The calldata\<close>





subsection \<open>The run\<close>

lemma approveIfNeeded_cases:
  assumes "approveIfNeeded ops s data T ch = (r, ch1, log1)"
  shows "(r = Inr () \<and> log1 = [] \<and> ch1 = ch
            \<and> T \<le> allowance ops ch (token data) s batchSenderAddress)
       \<or> (r = Inr () \<and> log1 = [(ch, Approve (token data) batchSenderAddress T)]
            \<and> approve ops ch s (token data) batchSenderAddress T = Some ch1
            \<and> allowance ops ch (token data) s batchSenderAddress < T)
       \<or> (r = Inl SubmissionError \<and> log1 = [(ch, Approve (token data) batchSenderAddress T)]
            \<and> approve ops ch s (token data) batchSenderAddress T = None \<and> ch1 = ch
            \<and> allowance ops ch (token data) s batchSenderAddress < T)"
  using assms by (auto simp: approveIfNeeded_def split: if_splits option.splits)

lemma sendTransactions_unfold:
  assumes a: "approveIfNeeded ops (wallet_address ops key) data (sum_list amts) (chain env) = (ra, ch1, log1)"
      and b: "sendBatches ops (truthy (DRY_RUN env)) (wallet_address ops key) data rs amts 150 []
                (lodash_range 0 (length amts) 150) ch1 = (rb, ch2, log2)"
  shows "sendTransactions ops env data m rs amts key =
     (case ra of
        Inl e \<Rightarrow> stopped env (Inl e) log1 ch1
      | Inr u \<Rightarrow>
         (case rb of
            Inl e \<Rightarrow> stopped env (Inl e) (log1 @ log2) ch2
          | Inr u' \<Rightarrow> \<lparr>result = Inr (), calls = log1 @ log2, chain_after = ch2,
                   migrations_after = Some (m(dist_id data \<mapsto> now_ms env div 1000))\<rparr>))"
  using a b by (simp add: sendTransactions_def Let_def split: sum.splits)

lemma sendDistribution_cases:
  "(WRITE env = Some ''true'' \<and> (\<exists>key. BATCH_SENDER_KEY env = Some key \<and>
       sendDistribution ops env data m =
         sendTransactions ops env data m (map fst (data_amounts data)) (map snd (data_amounts data)) key))
   \<or> (\<exists>r. sendDistribution ops env data m = stopped env r [] (chain env)
         \<and> (r = Inr () \<longrightarrow> WRITE env \<noteq> Some ''true'')
         \<and> r \<in> {Inr (), Inl BatchSenderKeyRequired, Inl (UnsupportedNetwork (network_name env))})"
  by (cases "BATCH_SENDER_KEY env") (auto simp: sendDistribution_def Let_def truthy_def)

lemma approve_not_batch [simp]: "\<not> is_batch_call (Approve t sp a)"
  by (simp add: is_batch_call_def)

lemma filter_batch_calls:
  "map snd log = map (batchCall dry data rs amts bs) fs \<Longrightarrow>
   filter is_batch_call (map snd log) = map (batchCall dry data rs amts bs) fs"
  by (simp add: batchCall_is_batch filter_id_conv)

lemma sendTransactions_props:
  fixes ops :: "'c contracts"
  assumes o: "out = sendTransactions ops env data m rs amts key"
      and s: "s = wallet_address ops key"
  shows "result out = Inr () \<or>
           (result out = Inl SubmissionError \<and> migrations_after out = migrations_file env)"
    and "result out = Inr () \<Longrightarrow>
           migrations_after out = Some (m(dist_id data \<mapsto> now_ms env div 1000)) \<and>
           list_all (\<lambda>x. call_ok ops s (fst x) (snd x)) (calls out) \<and>
           filter is_batch_call (map snd (calls out)) =
             map (batchCall (truthy (DRY_RUN env)) data rs amts 150)
               (lodash_range 0 (length amts) 150)"
    and "calls out = pre @ x # post \<Longrightarrow> \<not> call_ok ops s (fst x) (snd x) \<Longrightarrow>
           post = [] \<and> result out = Inl SubmissionError"
    and "list_all (\<lambda>x. call_ok ops s (fst x) (snd x)) (calls out) \<Longrightarrow> result out = Inr ()"
proof -
  obtain ra ch1 log1 where
    a: "approveIfNeeded ops s data (sum_list amts) (chain env) = (ra, ch1, log1)"
    by (cases "approveIfNeeded ops s data (sum_list amts) (chain env)") auto
  obtain rb ch2 log2 where
    b: "sendBatches ops (truthy (DRY_RUN env)) s data rs amts 150 []
          (lodash_range 0 (length amts) 150) ch1 = (rb, ch2, log2)"
    by (cases "sendBatches ops (truthy (DRY_RUN env)) s data rs amts 150 []
          (lodash_range 0 (length amts) 150) ch1") auto
  note u = sendTransactions_unfold[OF a[unfolded s] b[unfolded s], of m, folded o]
  note ac = approveIfNeeded_cases[OF a]
  have ok1: "ra = Inr () \<Longrightarrow> list_all (\<lambda>x. call_ok ops s (fst x) (snd x)) log1"
    using ac by (auto simp: call_ok_def run_call_def)
  have bad1: "ra \<noteq> Inr () \<Longrightarrow> ra = Inl SubmissionError \<and>
      (\<exists>y. log1 = [y] \<and> \<not> call_ok ops s (fst y) (snd y))"
    using ac by (auto simp: call_ok_def run_call_def)
  show "result out = Inr () \<or>
           (result out = Inl SubmissionError \<and> migrations_after out = migrations_file env)"
  proof (cases ra)
    case (Inl e)
    with bad1 u show ?thesis by (auto simp: stopped_def)
  next
    case (Inr u1)
    show ?thesis
    proof (cases rb)
      case (Inl e)
      with b sendBatches_Inl[of ops _ s data rs amts 150 _ ch1 e ch2 log2] Inr u
      show ?thesis by (auto simp: stopped_def)
    next
      case (Inr u2)
      with \<open>ra = Inr u1\<close> u show ?thesis by simp
    qed
  qed
  show "result out = Inr () \<Longrightarrow>
           migrations_after out = Some (m(dist_id data \<mapsto> now_ms env div 1000)) \<and>
           list_all (\<lambda>x. call_ok ops s (fst x) (snd x)) (calls out) \<and>
           filter is_batch_call (map snd (calls out)) =
             map (batchCall (truthy (DRY_RUN env)) data rs amts 150)
               (lodash_range 0 (length amts) 150)"
  proof -
    assume r: "result out = Inr ()"
    from r u have ra: "ra = Inr ()" by (cases ra) (auto simp: stopped_def)
    from r u ra have rb: "rb = Inr ()" by (cases rb) (auto simp: stopped_def)
    from u ra rb have c: "calls out = log1 @ log2"
      and mg: "migrations_after out = Some (m(dist_id data \<mapsto> now_ms env div 1000))" by simp_all
    from sendBatches_Inr[OF b[unfolded rb]] sendBatches_calls[OF b]
    have l2: "list_all (\<lambda>x. call_ok ops s (fst x) (snd x)) log2"
      "map snd log2 = map (batchCall (truthy (DRY_RUN env)) data rs amts 150)
               (lodash_range 0 (length amts) 150)" by simp_all
    have "filter is_batch_call (map snd log1) = []" using ac by auto
    with c l2 ok1[OF ra] mg filter_batch_calls[OF l2(2)] show ?thesis by simp
  qed
  show "post = [] \<and> result out = Inl SubmissionError"
    if c: "calls out = pre @ x # post" and bad: "\<not> call_ok ops s (fst x) (snd x)"
  proof (cases "ra = Inr ()")
    case False
    with bad1 obtain y where y: "ra = Inl SubmissionError" "log1 = [y]" by blast
    with u c have "[y] = pre @ x # post" "result out = Inl SubmissionError"
      by (auto simp: stopped_def)
    then show ?thesis by (auto simp: Cons_eq_append_conv)
  next
    case True
    show ?thesis
    proof (cases rb)
      case (Inr u2)
      with True u have "calls out = log1 @ log2" by simp
      moreover from Inr sendBatches_Inr[of ops _ s data rs amts 150 _ ch1 ch2 log2] b
      have "list_all (\<lambda>x. call_ok ops s (fst x) (snd x)) log2" by simp
      ultimately have "list_all (\<lambda>x. call_ok ops s (fst x) (snd x)) (pre @ x # post)"
        using ok1[OF True] c by simp
      with bad show ?thesis by simp
    next
      case (Inl e)
      with b sendBatches_Inl[of ops _ s data rs amts 150 _ ch1 e ch2 log2]
      obtain p y where p: "e = SubmissionError" "log2 = p @ [y]"
        "list_all (\<lambda>x. call_ok ops s (fst x) (snd x)) p" by blast
      from True Inl u p have c2: "calls out = (log1 @ p) @ [y]" "result out = Inl SubmissionError"
        by (auto simp: stopped_def)
      have okp: "list_all (\<lambda>x. call_ok ops s (fst x) (snd x)) (log1 @ p)"
        using ok1[OF True] p(3) by simp
      have "post = []"
      proof (rule ccontr)
        assume "post \<noteq> []"
        then obtain q z where "post = q @ [z]" by (metis rev_exhaust)
        with c c2(1) have "log1 @ p = pre @ x # q" by simp
        with okp bad show False by simp
      qed
      with c2 show ?thesis by simp
    qed
  qed
  show "result out = Inr ()" if ok: "list_all (\<lambda>x. call_ok ops s (fst x) (snd x)) (calls out)"
  proof (rule ccontr)
    assume n: "result out \<noteq> Inr ()"
    show False
    proof (cases "ra = Inr ()")
      case False
      with bad1 obtain y where "ra = Inl SubmissionError" "log1 = [y]" "\<not> call_ok ops s (fst y) (snd y)"
        by blast
      with u ok show False by (auto simp: stopped_def)
    next
      case True
      with n u obtain e where e: "rb = Inl e" by (cases rb) auto
      with b sendBatches_Inl[of ops _ s data rs amts 150 _ ch1 e ch2 log2]
      obtain p y where "log2 = p @ [y]" "\<not> call_ok ops s (fst y) (snd y)" by blast
      with True e u ok show False by (auto simp: stopped_def)
    qed
  qed
qed

lemmas run_defs = batchSend_main_def readDistributionFile_def readMigrations_def hasCompleted_def
  truthy_def sendDistribution_def sendTransactions_def approveIfNeeded_def stopped_def
  lodash_range_def slice_def Let_def sendBatches.simps(2) plain_token_def

lemma main_unfold:
  "readDistributionFile ops env = Inr (data, name) \<Longrightarrow>
   batchSend_main ops env =
     (if hasCompleted (readMigrations env) (dist_id data) \<and> \<not> truthy (SKIP_MIGRATION_VALIDATION env)
      then stopped env (Inl (AlreadySentError (dist_id data))) [] (chain env)
      else sendDistribution ops env data (readMigrations env))"
  by (simp add: batchSend_main_def Let_def)

lemma sendDistribution_result:
  "result (sendDistribution ops env data m) \<in>
     {Inr (), Inl BatchSenderKeyRequired, Inl (UnsupportedNetwork (network_name env)),
      Inl SubmissionError}"
proof -
  from sendDistribution_cases[of env ops data m]
  consider key where "sendDistribution ops env data m =
         sendTransactions ops env data m (map fst (data_amounts data)) (map snd (data_amounts data)) key"
    | r where "sendDistribution ops env data m = stopped env r [] (chain env)"
        "r \<in> {Inr (), Inl BatchSenderKeyRequired, Inl (UnsupportedNetwork (network_name env))}"
    by blast
  then show ?thesis
  proof cases
    case 1
    from sendTransactions_props(1)[OF refl refl, of ops env data m _ _ key] 1
    show ?thesis by auto
  next
    case 2
    then show ?thesis by (auto simp: stopped_def)
  qed
qed


lemma readDistributionFile_errors:
  "readDistributionFile ops env = Inl e \<Longrightarrow>
     e \<in> {FilenameRequired, FileNotReadable} \<or> (\<exists>s. e = InvalidFileFormat s)
       \<or> (\<exists>i. e = UnknownDistributionType i)"
  by (auto simp: readDistributionFile_def split: option.splits if_splits)

subsection \<open>The examples\<close>





section \<open>The properties\<close>

subsection \<open>Duplicate recipients\<close>


text \<open>
  No run ends in the error of a duplicated recipient, whatever the file, the environment
  and the contracts: nothing is ever added to the set the loop looks the recipients up in.
\<close>

theorem never_duplicate_error:
  "result (batchSend_main ops env) \<noteq> Inl (DuplicateRecipientError r f t)"
proof (cases "readDistributionFile ops env")
  case (Inl e)
  with readDistributionFile_errors[OF Inl] show ?thesis
    by (auto simp: batchSend_main_def stopped_def)
next
  case (Inr p)
  obtain data name where p: "p = (data, name)" by (cases p)
  from main_unfold[OF Inr[unfolded p]]
       sendDistribution_result[of ops env data "readMigrations env"]
  show ?thesis by (auto simp: stopped_def split: if_splits)
qed

subsection \<open>The allowance\<close>



subsection \<open>Over-allocation\<close>

text \<open>
  Claim C3, as amended. The run ends in the over-allocation error exactly when the week has
  incentives, every market went through, and the sum of the rewards of all accounts, those
  below the threshold included, exceeds the total allocated to the period (and the loop
  over the accounts did not divide by zero first: the total is not zero, or no account
  reaches the threshold).
\<close>

theorem over_allocation_iff:
  "stipLpIncentives_main ov bd alloc = Inl (OverAllocationError u t) \<longleftrightarrow>
     isActive alloc \<and>
     (\<exists>dist. marketsLoop bd (rewardsPerMarket alloc) [] = Inr dist \<and>
        \<not> (totalRewards alloc = 0 \<and> (\<exists>p \<in> set dist. MIN_REWARD_THRESHOLD \<le> snd p)) \<and>
        u = sum_list (map snd dist) \<and> t = totalRewards alloc \<and> t < u)"
proof (cases "marketsLoop bd (rewardsPerMarket alloc) []")
  case (Inl e)
  with marketsLoop_not_over[of bd "rewardsPerMarket alloc" "[]" u t]
  show ?thesis by (simp add: main_alloc_unfold)
next
  case (Inr dist)
  then show ?thesis by (auto simp: main_alloc_unfold)
qed

text \<open>
  A market of supply 20 tokens and 2 tokens of rewards, whose accounts hold 20 and 0.9
  tokens: the rewards are 2 and 0.09 tokens, 2.09 in all, against 2 allocated.
\<close>

theorem over_allocation_iff_witness:
  "stipLpIncentives_main (\<lambda>jsonResult. jsonResult)
     (one_market 20000000000000000000 20000000000000000000 900000000000000000)
     (one_market_allocation 2000000000000000000)
   = Inl (OverAllocationError 2090000000000000000 2000000000000000000)"
proof -
  have "isActive (one_market_allocation 2000000000000000000) \<and>
     (\<exists>dist. marketsLoop (one_market 20000000000000000000 20000000000000000000 900000000000000000)
               (rewardsPerMarket (one_market_allocation 2000000000000000000)) [] = Inr dist \<and>
        \<not> (totalRewards (one_market_allocation 2000000000000000000) = 0
            \<and> (\<exists>p \<in> set dist. MIN_REWARD_THRESHOLD \<le> snd p)) \<and>
        2090000000000000000 = sum_list (map snd dist) \<and>
        2000000000000000000 = totalRewards (one_market_allocation 2000000000000000000) \<and>
        (2000000000000000000::int) < 2090000000000000000)"
    by (simp add: over_example_markets) (simp add: one_market_allocation_def)
  then show ?thesis by (simp only: over_allocation_iff)
qed

text \<open>
  Claim C3 as stated fails on the same run: the one account that reaches the threshold is
  rewarded 2 tokens, which is within the 2 allocated, and the error is raised all the same,
  for the 0.09 tokens of the account below the threshold are in the sum.
\<close>

theorem over_allocation_counterexample:
  "stipLpIncentives_main (\<lambda>jsonResult. jsonResult)
     (one_market 20000000000000000000 20000000000000000000 900000000000000000)
     (one_market_allocation 2000000000000000000)
   = Inl (OverAllocationError 2090000000000000000 2000000000000000000)
   \<and> marketsLoop (one_market 20000000000000000000 20000000000000000000 900000000000000000)
       (rewardsPerMarket (one_market_allocation 2000000000000000000)) [] =
     Inr [(''0xe7bfff2ab721264887230037940490351700a068'', 2000000000000000000),
          (''0x43ce1d475e06c65dd879f4ec644b8e0e10ff2b6d'', 90000000000000000)]
   \<and> includedRewardsSum
       [(''0xe7bfff2ab721264887230037940490351700a068'', 2000000000000000000),
        (''0x43ce1d475e06c65dd879f4ec644b8e0e10ff2b6d'', 90000000000000000)]
     = 2000000000000000000
   \<and> totalRewards (one_market_allocation 2000000000000000000) = 2000000000000000000"
  by (simp add: main_alloc_unfold over_example_markets includedRewardsSum_def threshold_value)
     (simp add: one_market_allocation_def)

subsection \<open>The rewards of a market\<close>

text \<open>
  Claim C4, as amended. For a market whose supply is positive, whose rewards and balances
  are not negative, and whose balances add up to at most the supply: the loop over the
  accounts goes through, the reward of each account is the floor of balance times rewards
  by supply, and the rewards the loop adds to the distribution add up to at most the
  rewards of the market.
\<close>

theorem market_rewards_bounded:
  assumes pos: "0 < marketTokensSupply'"
      and rew: "0 \<le> marketRewards"
      and nonneg: "list_all (\<lambda>p. 0 \<le> snd p) balances"
      and le: "sum_list (map snd balances) \<le> marketTokensSupply'"
  shows "\<exists>dist'. userRewardsLoop marketRewards marketTokensSupply' balances dist = Inr dist' \<and>
           list_all (\<lambda>p. userRewardsOf (snd p) marketRewards marketTokensSupply'
                          = Inr (snd p * marketRewards div marketTokensSupply')) balances \<and>
           sum_list (map snd dist') - sum_list (map snd dist) =
             sum_list (map (\<lambda>p. snd p * marketRewards div marketTokensSupply') balances) \<and>
           sum_list (map snd dist') - sum_list (map snd dist) \<le> marketRewards"
proof -
  from userRewardsLoop_sum[OF pos rew nonneg, of dist] obtain dist' where
    d: "userRewardsLoop marketRewards marketTokensSupply' balances dist = Inr dist'"
       "sum_list (map snd dist') = sum_list (map snd dist)
          + sum_list (map (\<lambda>p. snd p * marketRewards div marketTokensSupply') balances)"
    by blast
  have fl: "list_all (\<lambda>p. userRewardsOf (snd p) marketRewards marketTokensSupply'
                          = Inr (snd p * marketRewards div marketTokensSupply')) balances"
    using nonneg by (simp add: list_all_iff userRewardsOf_floor[OF pos rew])
  have "sum_list (map (\<lambda>p. snd p * marketRewards div marketTokensSupply') balances)
          \<le> (sum_list (map snd balances) * marketRewards) div marketTokensSupply'"
    by (rule sum_floor_le[OF pos])
  also have "\<dots> \<le> (marketTokensSupply' * marketRewards) div marketTokensSupply'"
    using pos le rew by (intro zdiv_mono1 mult_right_mono) simp_all
  also have "\<dots> = marketRewards" using pos by simp
  finally have bound: "sum_list (map (\<lambda>p. snd p * marketRewards div marketTokensSupply') balances)
          \<le> marketRewards" .
  from d fl bound show ?thesis by auto
qed

text \<open>
  Balances of 7 and 13 tokens on a supply of 20, and rewards of 2 tokens and one unit: the
  rewards are 0.7 and 1.3 tokens, the unit is lost to rounding.
\<close>

theorem market_rewards_bounded_witness:
  "\<exists>dist'.
     userRewardsLoop 2000000000000000001 20000000000000000000
       [(''0xe7bfff2ab721264887230037940490351700a068'', 7000000000000000000),
        (''0x43ce1d475e06c65dd879f4ec644b8e0e10ff2b6d'', 13000000000000000000)] [] = Inr dist'
     \<and> sum_list (map snd dist') - sum_list (map snd ([] :: (address \<times> int) list))
         = 700000000000000000 + 1300000000000000000
     \<and> sum_list (map snd dist') - sum_list (map snd ([] :: (address \<times> int) list))
         \<le> 2000000000000000001"
proof -
  from market_rewards_bounded[of 20000000000000000000 2000000000000000001
     "[(''0xe7bfff2ab721264887230037940490351700a068'', 7000000000000000000),
       (''0x43ce1d475e06c65dd879f4ec644b8e0e10ff2b6d'', 13000000000000000000)]" "[]"]
  show ?thesis by (auto simp del: userRewardsLoop.simps)
qed

text \<open>
  Claim C4 as stated fails when the balances exceed the supply by no more than the
  tolerance of the reconciliation: the account that holds 21 tokens of a supply of 20 is
  rewarded 2.1 tokens of a market that was allocated 2, and the run ends without an error.
\<close>

theorem market_rewards_bounded_counterexample:
  "stipLpIncentives_main (\<lambda>jsonResult. jsonResult) two_markets two_markets_allocation =
     Inr [(''0x43ce1d475e06c65dd879f4ec644b8e0e10ff2b6d'', 1900000000000000000),
          (''0xe7bfff2ab721264887230037940490351700a068'', 2100000000000000000)]
   \<and> processMarket two_markets
       (''0x70d95587d40A2caf56bd97485aB3Eec10Bee6336'', 2000000000000000000) [] =
     Inr [(''0xe7bfff2ab721264887230037940490351700a068'', 2100000000000000000)]
   \<and> userRewardsOf 21000000000000000000 2000000000000000000 20000000000000000000
       = Inr 2100000000000000000
   \<and> (2000000000000000000 :: int) < 2100000000000000000"
  by (simp add: stipLpIncentives_main_def alloc_defs)

subsection \<open>Reconciliation of balances and supply\<close>

text \<open>
  Claim C5. The run ends in the reconciliation error of a market \<open>m\<close>, with the supply
  \<open>s\<close> and the sum of balances \<open>u\<close> in its message, exactly when the week has incentives,
  every market before \<open>m\<close> in the allocation went through, \<open>m\<close> has balances data, and
  \<open>s\<close> and \<open>u\<close> are its supply and the sum of its balances and differ by more than 10^18.
  The run then has no result, so nothing is saved. In particular a market whose balances
  add up to its supply exactly never raises the error.
\<close>

theorem reconciliation_error_iff:
  "(stipLpIncentives_main ov bd alloc = Inl (ReconciliationError m s u) \<longleftrightarrow>
      isActive alloc \<and>
      (\<exists>pre r post d md.
         rewardsPerMarket alloc = pre @ (m, r) # post \<and> marketsLoop bd pre [] = Inr d \<and>
         bd m = Some md \<and> s = marketTokensSupply md \<and>
         u = sum_list (map snd (userBalances md)) \<and>
         1000000000000000000 < \<bar>u - s\<bar>))
   \<and> ((\<forall>md. bd m = Some md \<longrightarrow> sum_list (map snd (userBalances md)) = marketTokensSupply md)
        \<longrightarrow> stipLpIncentives_main ov bd alloc \<noteq> Inl (ReconciliationError m s u))"
proof -
  have iff: "stipLpIncentives_main ov bd alloc = Inl (ReconciliationError m s u) \<longleftrightarrow>
      isActive alloc \<and>
      (\<exists>pre r post d md.
         rewardsPerMarket alloc = pre @ (m, r) # post \<and> marketsLoop bd pre [] = Inr d \<and>
         bd m = Some md \<and> s = marketTokensSupply md \<and>
         u = sum_list (map snd (userBalances md)) \<and>
         1000000000000000000 < \<bar>u - s\<bar>)"
  proof -
    have "stipLpIncentives_main ov bd alloc = Inl (ReconciliationError m s u) \<longleftrightarrow>
          isActive alloc \<and> marketsLoop bd (rewardsPerMarket alloc) [] = Inl (ReconciliationError m s u)"
      by (cases "marketsLoop bd (rewardsPerMarket alloc) []") (simp_all add: main_alloc_unfold)
    also have "\<dots> \<longleftrightarrow> isActive alloc \<and>
      (\<exists>pre mr post d. rewardsPerMarket alloc = pre @ mr # post \<and> marketsLoop bd pre [] = Inr d
          \<and> processMarket bd mr d = Inl (ReconciliationError m s u))"
      by (simp add: marketsLoop_Inl)
    also have "\<dots> \<longleftrightarrow> isActive alloc \<and>
      (\<exists>pre r post d md.
         rewardsPerMarket alloc = pre @ (m, r) # post \<and> marketsLoop bd pre [] = Inr d \<and>
         bd m = Some md \<and> s = marketTokensSupply md \<and>
         u = sum_list (map snd (userBalances md)) \<and>
         1000000000000000000 < \<bar>u - s\<bar>)"
    proof -
      have "(\<exists>pre mr post d. rewardsPerMarket alloc = pre @ mr # post \<and> marketsLoop bd pre [] = Inr d
          \<and> processMarket bd mr d = Inl (ReconciliationError m s u)) \<longleftrightarrow>
        (\<exists>pre r post d md.
         rewardsPerMarket alloc = pre @ (m, r) # post \<and> marketsLoop bd pre [] = Inr d \<and>
         bd m = Some md \<and> s = marketTokensSupply md \<and>
         u = sum_list (map snd (userBalances md)) \<and>
         1000000000000000000 < \<bar>u - s\<bar>)" (is "?L \<longleftrightarrow> ?R")
      proof
        assume ?L
        then obtain pre mr post d where
          h0: "rewardsPerMarket alloc = pre @ mr # post" "marketsLoop bd pre [] = Inr d"
             "processMarket bd mr d = Inl (ReconciliationError m s u)"
          by blast
        obtain m0 r where mr: "mr = (m0, r)" by (cases mr)
        note h = h0[unfolded mr]
        from h(3) obtain md where md: "bd m0 = Some md" "m = m0" "s = marketTokensSupply md"
          "u = sum_list (map snd (userBalances md))" "1000000000000000000 < \<bar>u - s\<bar>"
          unfolding processMarket_reconciliation by blast
        from h(1,2) md show ?R by blast
      next
        assume ?R
        then obtain pre r post d md where
          h: "rewardsPerMarket alloc = pre @ (m, r) # post" "marketsLoop bd pre [] = Inr d"
             "bd m = Some md" "s = marketTokensSupply md"
             "u = sum_list (map snd (userBalances md))" "1000000000000000000 < \<bar>u - s\<bar>"
          by blast
        from h(3-6) have "processMarket bd (m, r) d = Inl (ReconciliationError m s u)"
          unfolding processMarket_reconciliation by blast
        with h(1,2) show ?L by blast
      qed
      then show ?thesis by simp
    qed
    finally show ?thesis .
  qed
  have exact: "(\<forall>md. bd m = Some md \<longrightarrow> sum_list (map snd (userBalances md)) = marketTokensSupply md)
        \<longrightarrow> stipLpIncentives_main ov bd alloc \<noteq> Inl (ReconciliationError m s u)"
  proof
    assume e: "\<forall>md. bd m = Some md \<longrightarrow> sum_list (map snd (userBalances md)) = marketTokensSupply md"
    show "stipLpIncentives_main ov bd alloc \<noteq> Inl (ReconciliationError m s u)"
    proof
      assume "stipLpIncentives_main ov bd alloc = Inl (ReconciliationError m s u)"
      with iff obtain md where "bd m = Some md" "s = marketTokensSupply md"
        "u = sum_list (map snd (userBalances md))" "1000000000000000000 < \<bar>u - s\<bar>"
        by blast
      with e show False by simp
    qed
  qed
  from iff exact show ?thesis by (rule conjI)
qed

text \<open>
  A market of supply 1 token whose accounts hold 3 raises the error; the market of supply
  1.05 tokens whose accounts hold 1 and 0.05 does not.
\<close>

theorem reconciliation_error_iff_witness:
  "stipLpIncentives_main (\<lambda>jsonResult. jsonResult)
     (one_market 1000000000000000000 3000000000000000000 0)
     (one_market_allocation 2000000000000000000)
   = Inl (ReconciliationError ''0x70d95587d40A2caf56bd97485aB3Eec10Bee6336''
            1000000000000000000 3000000000000000000)
   \<and> stipLpIncentives_main (\<lambda>jsonResult. jsonResult)
       (one_market 1050000000000000000 1000000000000000000 50000000000000000)
       (one_market_allocation 1050000000000000000)
     \<noteq> Inl (ReconciliationError ''0x70d95587d40A2caf56bd97485aB3Eec10Bee6336''
            1050000000000000000 1050000000000000000)"
proof -
  let ?m = "''0x70d95587d40A2caf56bd97485aB3Eec10Bee6336''"
  let ?bd = "one_market 1000000000000000000 3000000000000000000 0"
  let ?al = "one_market_allocation 2000000000000000000"
  have "rewardsPerMarket ?al = [] @ (?m, 2000000000000000000) # [] \<and>
        marketsLoop ?bd [] [] = Inr [] \<and>
        ?bd ?m = Some \<lparr>marketTokensSupply = 1000000000000000000,
         userBalances =
           [(''0xe7bfff2ab721264887230037940490351700a068'', 3000000000000000000),
            (''0x43ce1d475e06c65dd879f4ec644b8e0e10ff2b6d'', 0)]\<rparr>"
    by (simp add: one_market_def one_market_allocation_def)
  then have "\<exists>pre r post d md.
         rewardsPerMarket ?al = pre @ (?m, r) # post \<and> marketsLoop ?bd pre [] = Inr d \<and>
         ?bd ?m = Some md \<and> 1000000000000000000 = marketTokensSupply md \<and>
         3000000000000000000 = sum_list (map snd (userBalances md)) \<and>
         1000000000000000000 < \<bar>3000000000000000000 - (1000000000000000000::int)\<bar>"
    by (intro exI[of _ "[]"] exI[of _ "2000000000000000000"]
          exI[of _ "\<lparr>marketTokensSupply = 1000000000000000000,
         userBalances =
           [(''0xe7bfff2ab721264887230037940490351700a068'', 3000000000000000000),
            (''0x43ce1d475e06c65dd879f4ec644b8e0e10ff2b6d'', 0)]\<rparr>"]) simp
  moreover have "isActive ?al" by (simp add: one_market_allocation_def)
  ultimately have a: "stipLpIncentives_main (\<lambda>jsonResult. jsonResult) ?bd ?al
      = Inl (ReconciliationError ?m 1000000000000000000 3000000000000000000)"
    using reconciliation_error_iff[of "\<lambda>jsonResult. jsonResult" ?bd ?al ?m
            1000000000000000000 3000000000000000000]
    by blast
  have "\<forall>md. one_market 1050000000000000000 1000000000000000000 50000000000000000 ?m = Some md
          \<longrightarrow> sum_list (map snd (userBalances md)) = marketTokensSupply md"
    by (simp add: one_market_def)
  with reconciliation_error_iff[of "\<lambda>jsonResult. jsonResult"
         "one_market 1050000000000000000 1000000000000000000 50000000000000000"
         "one_market_allocation 1050000000000000000" ?m 1050000000000000000 1050000000000000000]
  have b: "stipLpIncentives_main (\<lambda>jsonResult. jsonResult)
       (one_market 1050000000000000000 1000000000000000000 50000000000000000)
       (one_market_allocation 1050000000000000000)
     \<noteq> Inl (ReconciliationError ?m 1050000000000000000 1050000000000000000)"
    by blast
  from a b show ?thesis by (rule conjI)
qed

subsection \<open>The threshold\<close>

text \<open>
  Claim C6. When the run has a result, it is \<open>overrideReceivers\<close> of a mapping that holds
  each account once and exactly the accounts whose reward aggregated across all markets
  (for each market, balance times rewards by supply, and these added up) is at least
  10^17, each with that reward; an account whose aggregated reward is below 10^17 is not
  in it. The run has a result when the week has incentives, every market went through,
  the total allocated is not zero and the rewards of all accounts do not exceed it. The
  threshold is 10^17.
\<close>

theorem threshold_filter:
  "(stipLpIncentives_main ov bd alloc = Inr out \<longrightarrow>
      (\<exists>jsonResult.
         out = ov jsonResult \<and> distinct (map fst jsonResult) \<and>
         (\<forall>a. map_of jsonResult a =
                (if aggregatedReward bd alloc a < 100000000000000000 then None
                 else Some (aggregatedReward bd alloc a)))))
   \<and> (isActive alloc \<and> marketsLoop bd (rewardsPerMarket alloc) [] = Inr dist \<and>
        totalRewards alloc \<noteq> 0 \<and> sum_list (map snd dist) \<le> totalRewards alloc \<longrightarrow>
        (\<exists>out. stipLpIncentives_main ov bd alloc = Inr out))
   \<and> MIN_REWARD_THRESHOLD = 100000000000000000"
proof (intro conjI impI)
  assume r: "stipLpIncentives_main ov bd alloc = Inr out"
  then obtain dist0 where d: "marketsLoop bd (rewardsPerMarket alloc) [] = Inr dist0"
    by (cases "marketsLoop bd (rewardsPerMarket alloc) []")
       (auto simp: main_alloc_unfold split: if_splits)
  let ?json = "filter (\<lambda>p. MIN_REWARD_THRESHOLD \<le> snd p) (sort_key snd dist0)"
  from r d have o: "out = ov ?json"
    by (auto simp: main_alloc_unfold split: if_splits)
  have dd: "distinct (map fst dist0)" using marketsLoop_distinct[OF d] by simp
  then have dj: "distinct (map fst ?json)"
    by (simp add: distinct_map_filter distinct_map_sort)
  have "\<forall>a. map_of ?json a =
                (if aggregatedReward bd alloc a < 100000000000000000 then None
                 else Some (aggregatedReward bd alloc a))"
  proof
    fix a
    from marketsLoop_aggregated[OF d, of a]
    show "map_of ?json a =
                (if aggregatedReward bd alloc a < 100000000000000000 then None
                 else Some (aggregatedReward bd alloc a))"
      by (auto simp: map_of_filter_sort[OF dd] threshold_value)
  qed
  with o dj show "\<exists>jsonResult.
         out = ov jsonResult \<and> distinct (map fst jsonResult) \<and>
         (\<forall>a. map_of jsonResult a =
                (if aggregatedReward bd alloc a < 100000000000000000 then None
                 else Some (aggregatedReward bd alloc a)))"
    by blast
next
  assume "isActive alloc \<and> marketsLoop bd (rewardsPerMarket alloc) [] = Inr dist \<and>
        totalRewards alloc \<noteq> 0 \<and> sum_list (map snd dist) \<le> totalRewards alloc"
  then show "\<exists>out. stipLpIncentives_main ov bd alloc = Inr out"
    by (simp add: main_alloc_unfold)
next
  show "MIN_REWARD_THRESHOLD = 100000000000000000" by (rule threshold_value)
qed

text \<open>
  Two markets: the account that is rewarded 0.06 tokens in each of them is in the result
  with 0.12 tokens, the account rewarded 1 token is in the result, the account rewarded
  0.05 tokens is not.
\<close>

theorem threshold_filter_witness:
  "\<exists>jsonResult.
     stipLpIncentives_main (\<lambda>jsonResult. jsonResult) threshold_markets threshold_allocation
       = Inr jsonResult
     \<and> map_of jsonResult ''0xFb11f15f206bdA02c224EDC744b0E50E46137046''
         = Some 120000000000000000
     \<and> map_of jsonResult ''0xE47b36382DC50b90bCF6176Ddb159C4b9333A7AB''
         = Some 1000000000000000000
     \<and> map_of jsonResult ''0xC84f3398eDf6336E1Ef55b50Ca3F9f9f96B8b504'' = None"
proof -
  let ?dist = "[(''0xFb11f15f206bdA02c224EDC744b0E50E46137046'', 120000000000000000),
          (''0xE47b36382DC50b90bCF6176Ddb159C4b9333A7AB'', 1000000000000000000),
          (''0xC84f3398eDf6336E1Ef55b50Ca3F9f9f96B8b504'', 50000000000000000),
          (''0xf1e1B2F4796d984CCb8485d43db0c64B83C1FA6d'', 890000000000000000),
          (''0xe3764a841e4a5EDa05422e1aC7FaF1266DE079e7'', 940000000000000000::int)]"
  note t = threshold_filter[of "\<lambda>jsonResult. jsonResult" threshold_markets
             threshold_allocation _ ?dist]
  have "isActive threshold_allocation \<and>
        marketsLoop threshold_markets (rewardsPerMarket threshold_allocation) [] = Inr ?dist \<and>
        totalRewards threshold_allocation \<noteq> 0 \<and>
        sum_list (map snd ?dist) \<le> totalRewards threshold_allocation"
    by (simp add: threshold_markets_loop) (simp add: threshold_allocation_def)
  with t obtain out where
    out: "stipLpIncentives_main (\<lambda>jsonResult. jsonResult) threshold_markets
            threshold_allocation = Inr out"
    by blast
  with threshold_filter[of "\<lambda>jsonResult. jsonResult" threshold_markets
         threshold_allocation out ?dist]
  have "\<forall>a. map_of out a =
                (if aggregatedReward threshold_markets threshold_allocation a
                      < 100000000000000000 then None
                 else Some (aggregatedReward threshold_markets threshold_allocation a))"
    by auto
  then have "map_of out ''0xFb11f15f206bdA02c224EDC744b0E50E46137046''
               = Some 120000000000000000"
    "map_of out ''0xE47b36382DC50b90bCF6176Ddb159C4b9333A7AB'' = Some 1000000000000000000"
    "map_of out ''0xC84f3398eDf6336E1Ef55b50Ca3F9f9f96B8b504'' = None"
    by (simp_all add: threshold_aggregated)
  with out show ?thesis by blast
qed

subsection \<open>Batches\<close>




subsection \<open>The ledger check\<close>

text \<open>
  Claim C8. For a run whose distribution file is read: when the ledger has the
  distribution id and \<^verbatim>\<open>SKIP_MIGRATION_VALIDATION\<close> is not set, the run fails with the
  error that the distribution was already sent, having made no call and written nothing.
  When the variable is set or the id is not in the ledger, the run is the rest of
  \<^verbatim>\<open>main\<close> and never ends in that error. A missing ledger file holds no id.
\<close>

theorem idempotency_check:
  assumes "readDistributionFile ops env = Inr (data, name)"
  shows "(hasCompleted (readMigrations env) (dist_id data)
            \<and> \<not> truthy (SKIP_MIGRATION_VALIDATION env) \<longrightarrow>
          result (batchSend_main ops env) = Inl (AlreadySentError (dist_id data)) \<and>
          calls (batchSend_main ops env) = [] \<and>
          chain_after (batchSend_main ops env) = chain env \<and>
          migrations_after (batchSend_main ops env) = migrations_file env)
       \<and> (truthy (SKIP_MIGRATION_VALIDATION env)
            \<or> \<not> hasCompleted (readMigrations env) (dist_id data) \<longrightarrow>
          batchSend_main ops env = sendDistribution ops env data (readMigrations env) \<and>
          (\<forall>i. result (batchSend_main ops env) \<noteq> Inl (AlreadySentError i)))
       \<and> (migrations_file env = None \<longrightarrow>
            \<not> hasCompleted (readMigrations env) (dist_id data))"
proof (intro conjI impI)
  assume "hasCompleted (readMigrations env) (dist_id data)
            \<and> \<not> truthy (SKIP_MIGRATION_VALIDATION env)"
  then have m: "batchSend_main ops env =
      stopped env (Inl (AlreadySentError (dist_id data))) [] (chain env)"
    using main_unfold[OF assms] by simp
  show "result (batchSend_main ops env) = Inl (AlreadySentError (dist_id data))"
    "calls (batchSend_main ops env) = []"
    "chain_after (batchSend_main ops env) = chain env"
    "migrations_after (batchSend_main ops env) = migrations_file env"
    by (simp_all add: m stopped_def)
next
  assume "truthy (SKIP_MIGRATION_VALIDATION env)
            \<or> \<not> hasCompleted (readMigrations env) (dist_id data)"
  then show m: "batchSend_main ops env = sendDistribution ops env data (readMigrations env)"
    using main_unfold[OF assms] by auto
  show "\<forall>i. result (batchSend_main ops env) \<noteq> Inl (AlreadySentError i)"
    using sendDistribution_result[of ops env data "readMigrations env"] by (auto simp: m)
next
  assume "migrations_file env = None"
  then show "\<not> hasCompleted (readMigrations env) (dist_id data)"
    by (simp add: readMigrations_def hasCompleted_def)
qed

text \<open>
  The example run with the id in the ledger, the same with the override, and without a
  ledger file.
\<close>

theorem idempotency_check_witness:
  "result (batchSend_main plain_token
             (example_env\<lparr>migrations_file := Some [7 \<mapsto> 1700000000]\<rparr>))
     = Inl (AlreadySentError 7)
   \<and> calls (batchSend_main plain_token
             (example_env\<lparr>migrations_file := Some [7 \<mapsto> 1700000000]\<rparr>)) = []
   \<and> result (batchSend_main plain_token
             (example_env\<lparr>migrations_file := Some [7 \<mapsto> 1700000000],
                          SKIP_MIGRATION_VALIDATION := Some ''1''\<rparr>)) = Inr ()
   \<and> result (batchSend_main plain_token example_env) = Inr ()"
  using idempotency_check[of plain_token
          "example_env\<lparr>migrations_file := Some [7 \<mapsto> 1700000000]\<rparr>"
          example_file "''STIP LP incentives''"]
  by (simp add: run_defs example_env_def example_file_def)

subsection \<open>Writing the ledger\<close>




subsection \<open>Dry runs\<close>



end
